theory Spec2Isabelle
  imports Complex_Main "HOL-Library.Word" "HOL-Library.Signed_Division"
begin

unbundle bit_operations_syntax

section \<open>The transposition table of tt.cpp\<close>

subsection \<open>Types and header constants\<close>

text \<open>
  \<open>Key\<close> is \<open>uint64_t\<close>, \<open>Move\<close> wraps a \<open>uint16_t\<close> (its \<open>operator bool\<close> is
  "the data is not zero", and \<open>Move::none()\<close> is 0). \<open>Value\<close> and \<open>Depth\<close> are C++
  \<open>int\<close>; they are modelled by \<open>int\<close>, every narrowing cast of the source written out
  with \<open>word_of_int\<close>. Signed overflow of \<open>int\<close> is undefined in C++ and is not part
  of the model.
\<close>

type_synonym Key = "64 word"
type_synonym Move = "16 word"
type_synonym Value = int
type_synonym Depth = int

text \<open>
  Modelled from the spec: the enum \<open>Bound\<close> of types.h, which is not among the sources.
  The spec lists its members as EXACT, LOWER and UPPER.
\<close>

datatype Bound = BOUND_UPPER | BOUND_LOWER | BOUND_EXACT

text \<open>
  tt.cpp uses constants that tt.h and types.h declare. Those headers are not among the
  sources, so the constants are parameters of every function below: the cluster size and
  the byte size of a cluster, the two generation constants, the depth offset and the
  integer values of the \<open>Bound\<close> enumerators.
\<close>

record tt_header =
  ClusterSize :: nat
  sizeof_Cluster :: nat
  GENERATION_CYCLE :: int
  GENERATION_MASK :: int
  DEPTH_ENTRY_OFFSET :: int
  Bound_value :: "Bound \<Rightarrow> int"

text \<open>
  The packed entry. \<open>value16\<close> and \<open>eval16\<close> are \<open>int16_t\<close>: 16-bit words read
  with \<open>sint\<close>.
\<close>

record TTEntry =
  key16 :: "16 word"
  depth8 :: "8 word"
  genBound8 :: "8 word"
  move16 :: Move
  value16 :: "16 word"
  eval16 :: "16 word"

text \<open>
  Modelled from the spec: the accessor \<open>TTEntry::depth()\<close> of tt.h. The spec stores the
  depth "with a fixed negative offset subtracted", so the depth read back is the field
  plus the offset.
\<close>

definition depth :: "tt_header \<Rightarrow> TTEntry \<Rightarrow> Depth" where
  "depth h e = uint (depth8 e) + DEPTH_ENTRY_OFFSET h"

subsection \<open>TTEntry::relative_age\<close>

text \<open>
  \<open>return (GENERATION_CYCLE + generation8 - genBound8) & GENERATION_MASK;\<close>
  The two \<open>uint8_t\<close> operands are promoted to \<open>int\<close>, the expression is computed in
  \<open>int\<close>, and the \<open>uint8_t\<close> return type keeps its low eight bits.
\<close>

definition relative_age :: "tt_header \<Rightarrow> TTEntry \<Rightarrow> 8 word \<Rightarrow> 8 word" where
  "relative_age h e generation8 =
     word_of_int ((GENERATION_CYCLE h + uint generation8 - uint (genBound8 e))
                  AND GENERATION_MASK h)"

subsection \<open>TTEntry::save\<close>

text \<open>
  The first \<open>if\<close> keeps or replaces the move; the second one tests the old \<open>key16\<close>
  (the first does not change it) and writes the five other fields. The two assertions
  inside the second branch are compiled out of the engine's release builds, which
  \<open>save\<close> is; their condition is the predicate \<open>save_asserts\<close>.
\<close>

definition save_asserts :: "tt_header \<Rightarrow> Depth \<Rightarrow> bool" where
  "save_asserts h d \<longleftrightarrow> d > DEPTH_ENTRY_OFFSET h \<and> d < 256 + DEPTH_ENTRY_OFFSET h"

definition save ::
  "tt_header \<Rightarrow> TTEntry \<Rightarrow> Key \<Rightarrow> Value \<Rightarrow> bool \<Rightarrow> Bound \<Rightarrow> Depth \<Rightarrow> Move \<Rightarrow> Value \<Rightarrow> 8 word
   \<Rightarrow> TTEntry" where
  "save h e k v pv b d m ev generation8 =
     (let e1 = (if m \<noteq> 0 \<or> (ucast k :: 16 word) \<noteq> key16 e then e\<lparr>move16 := m\<rparr> else e)
      in if b = BOUND_EXACT \<or> (ucast k :: 16 word) \<noteq> key16 e1
            \<or> d - DEPTH_ENTRY_OFFSET h + 2 * of_bool pv > uint (depth8 e1) - 4
            \<or> relative_age h e1 generation8 \<noteq> 0
         then e1\<lparr>key16 := ucast k,
                 depth8 := word_of_int (d - DEPTH_ENTRY_OFFSET h),
                 genBound8 := word_of_int (uint generation8 OR push_bit 2 (of_bool pv)
                                           OR Bound_value h b),
                 value16 := word_of_int v,
                 eval16 := word_of_int ev\<rparr>
         else e1)"

text \<open>
  The same function in a build that keeps its assertions: when the entry is to be
  overwritten, \<open>assert(d > DEPTH_ENTRY_OFFSET)\<close> and then
  \<open>assert(d < 256 + DEPTH_ENTRY_OFFSET)\<close> are checked, and a failed assertion aborts the
  process, which is \<open>None\<close>.
\<close>

definition save_checked ::
  "tt_header \<Rightarrow> TTEntry \<Rightarrow> Key \<Rightarrow> Value \<Rightarrow> bool \<Rightarrow> Bound \<Rightarrow> Depth \<Rightarrow> Move \<Rightarrow> Value \<Rightarrow> 8 word
   \<Rightarrow> TTEntry option" where
  "save_checked h e k v pv b d m ev g =
     (let e1 = (if m \<noteq> 0 \<or> (ucast k :: 16 word) \<noteq> key16 e then e\<lparr>move16 := m\<rparr> else e)
      in if b = BOUND_EXACT \<or> (ucast k :: 16 word) \<noteq> key16 e1
            \<or> d - DEPTH_ENTRY_OFFSET h + 2 * of_bool pv > uint (depth8 e1) - 4
            \<or> relative_age h e1 g \<noteq> 0
         then if \<not> d > DEPTH_ENTRY_OFFSET h then None
              else if \<not> d < 256 + DEPTH_ENTRY_OFFSET h then None
              else Some (e1\<lparr>key16 := ucast k,
                           depth8 := word_of_int (d - DEPTH_ENTRY_OFFSET h),
                           genBound8 := word_of_int (uint g OR push_bit 2 (of_bool pv)
                                                     OR Bound_value h b),
                           value16 := word_of_int v,
                           eval16 := word_of_int ev\<rparr>)
         else Some e1)"

text \<open>
  The header values of the engine this fork derives from, used for concrete runs:
  three entries in a 32-byte cluster, three low bits of \<open>genBound8\<close> for bound and pv,
  depth offset \<open>-3\<close>.
\<close>

definition bound_bits :: "Bound \<Rightarrow> int" where
  "bound_bits b = (case b of BOUND_UPPER \<Rightarrow> 1 | BOUND_LOWER \<Rightarrow> 2 | BOUND_EXACT \<Rightarrow> 3)"

definition sf_header :: tt_header where
  "sf_header = \<lparr>ClusterSize = 3, sizeof_Cluster = 32, GENERATION_CYCLE = 263,
                GENERATION_MASK = 248, DEPTH_ENTRY_OFFSET = - 3, Bound_value = bound_bits\<rparr>"


text \<open>
  The overwrite decision in the words of the specification, for a given margin: the new
  bound is EXACT, or the key fragment differs, or the new depth plus the bonus for a
  principal-variation node exceeds the stored depth by more than the margin, or the
  entry's relative age is not zero.
\<close>

definition overwrites_by_margin ::
  "tt_header \<Rightarrow> TTEntry \<Rightarrow> Key \<Rightarrow> bool \<Rightarrow> Bound \<Rightarrow> Depth \<Rightarrow> 8 word \<Rightarrow> int \<Rightarrow> bool" where
  "overwrites_by_margin h e k pv b d g margin \<longleftrightarrow>
     b = BOUND_EXACT \<or> key16 e \<noteq> ucast k
     \<or> d + (if pv then 2 else 0) > depth h e + margin
     \<or> relative_age h e g \<noteq> 0"

text \<open>
  The same four conditions with the depth condition of \<open>save\<close> read on depths: the new
  depth plus the bonus exceeds the stored depth minus 4.
\<close>

definition overwrites ::
  "tt_header \<Rightarrow> TTEntry \<Rightarrow> Key \<Rightarrow> bool \<Rightarrow> Bound \<Rightarrow> Depth \<Rightarrow> 8 word \<Rightarrow> bool" where
  "overwrites h e k pv b d g \<longleftrightarrow>
     b = BOUND_EXACT \<or> key16 e \<noteq> ucast k \<or> d + (if pv then 2 else 0) > depth h e - 4
     \<or> relative_age h e g \<noteq> 0"

text \<open>
  An occupied entry of depth 10 with bound LOWER, stamped with generation 8, under the
  header values above.
\<close>

definition entry_d10 :: TTEntry where
  "entry_d10 = \<lparr>key16 = 0x1234, depth8 = 13, genBound8 = 10, move16 = 0x41,
                 value16 = 100, eval16 = 50\<rparr>"

subsection \<open>The table\<close>

text \<open>
  A cluster is the array \<open>TTEntry entry[ClusterSize]\<close> (its padding holds no data); it
  is the list of its entries, so a loop \<open>for (i = 0; i < ClusterSize; ++i)\<close> over
  \<open>tte[i]\<close> is a recursion over that list. The table is the block of
  \<open>clusterCount\<close> clusters that \<open>table\<close> points to: the list of its clusters, whose
  length is \<open>clusterCount\<close>. \<open>generation8\<close> is the table's current generation.
\<close>

type_synonym Cluster = "TTEntry list"

record TranspositionTable =
  table :: "Cluster list"
  generation8 :: "8 word"

definition clusterCount :: "TranspositionTable \<Rightarrow> nat" where
  "clusterCount t = length (table t)"

text \<open>Every cluster of the table has \<open>ClusterSize\<close> entries, as the array type says.\<close>

definition table_ok :: "tt_header \<Rightarrow> TranspositionTable \<Rightarrow> bool" where
  "table_ok h t \<longleftrightarrow> list_all (\<lambda>c. length c = ClusterSize h) (table t)"

text \<open>
  Modelled from the spec: \<open>mul_hi64\<close> of misc.h and \<open>first_entry\<close> of tt.h. The spec
  multiplies the fingerprint by \<open>clusterCount\<close> as a 128-bit product and takes the high
  64 bits as the index of the owning cluster. Both operands are 64-bit values, so the
  product of the two naturals is that 128-bit product.
\<close>

definition mul_hi64 :: "nat \<Rightarrow> nat \<Rightarrow> nat" where
  "mul_hi64 a b = (a * b) div 2 ^ 64"

definition first_entry :: "TranspositionTable \<Rightarrow> Key \<Rightarrow> nat" where
  "first_entry t key = mul_hi64 (unat key) (clusterCount t)"

subsection \<open>TranspositionTable::probe\<close>

text \<open>
  The first loop returns at the first entry whose \<open>key16\<close> is the fragment looked for;
  \<open>find_key k es i\<close> runs it on the entries \<open>es\<close> that start at index \<open>i\<close>.
\<close>

fun find_key :: "16 word \<Rightarrow> TTEntry list \<Rightarrow> nat \<Rightarrow> (nat \<times> TTEntry) option" where
  "find_key k [] i = None"
| "find_key k (e # es) i = (if key16 e = k then Some (i, e) else find_key k es (Suc i))"

text \<open>
  The replacement value \<open>depth8 - relative_age(generation8) * 2\<close>, computed in \<open>int\<close>
  after promotion of the two bytes.
\<close>

definition replace_value :: "tt_header \<Rightarrow> 8 word \<Rightarrow> TTEntry \<Rightarrow> int" where
  "replace_value h g e = uint (depth8 e) - uint (relative_age h e g) * 2"

text \<open>
  The second loop: \<open>replace\<close> (its index and the entry it points to) moves to
  \<open>tte[i]\<close> when its value is strictly greater than that of \<open>tte[i]\<close>.
\<close>

fun find_replace ::
  "tt_header \<Rightarrow> 8 word \<Rightarrow> nat \<times> TTEntry \<Rightarrow> TTEntry list \<Rightarrow> nat \<Rightarrow> nat" where
  "find_replace h g (ri, r) [] i = ri"
| "find_replace h g (ri, r) (e # es) i =
     (if replace_value h g r > replace_value h g e
      then find_replace h g (i, e) es (Suc i)
      else find_replace h g (ri, r) es (Suc i))"

text \<open>
  \<open>probe\<close> returns the flag \<open>found\<close> and the entry pointer, which is the index of the
  cluster and the index of the entry in it. \<open>None\<close> is a read outside the table: the
  index \<open>first_entry\<close> of a table without clusters, or the first entry of a cluster
  without entries.
\<close>

definition probe :: "tt_header \<Rightarrow> TranspositionTable \<Rightarrow> Key \<Rightarrow> (bool \<times> nat \<times> nat) option" where
  "probe h t key =
     (let i = first_entry t key; k16 = (ucast key :: 16 word)
      in if i < length (table t)
         then (let tte = table t ! i
               in case find_key k16 tte 0 of
                    Some (j, e) \<Rightarrow> Some (depth8 e \<noteq> 0, i, j)
                  | None \<Rightarrow>
                      (case tte of
                         [] \<Rightarrow> None
                       | e0 # es \<Rightarrow> Some (False, i, find_replace h (generation8 t) (0, e0) es 1)))
         else None)"

subsection \<open>TranspositionTable::hashfull\<close>

text \<open>
  The inner loop adds 1 to \<open>cnt\<close> for an entry with a non-zero \<open>depth8\<close> whose
  \<open>genBound8 & GENERATION_MASK\<close> is \<open>generation8\<close> (compared in \<open>int\<close>).
\<close>

fun hashfull_entries :: "tt_header \<Rightarrow> 8 word \<Rightarrow> TTEntry list \<Rightarrow> int \<Rightarrow> int" where
  "hashfull_entries h g [] cnt = cnt"
| "hashfull_entries h g (e # es) cnt =
     hashfull_entries h g es
       (cnt + of_bool (depth8 e \<noteq> 0 \<and> uint (genBound8 e) AND GENERATION_MASK h = uint g))"

text \<open>
  The outer loop runs \<open>i\<close> from 0 to 999 whatever \<open>clusterCount\<close> is; \<open>table[i]\<close>
  beyond the last cluster is a read outside the table, \<open>None\<close>.
\<close>

function hashfull_clusters ::
  "tt_header \<Rightarrow> TranspositionTable \<Rightarrow> nat \<Rightarrow> int \<Rightarrow> int option" where
  "hashfull_clusters h t i cnt =
     (if i < 1000
      then (if i < length (table t)
            then hashfull_clusters h t (Suc i)
                   (hashfull_entries h (generation8 t) (table t ! i) cnt)
            else None)
      else Some cnt)"
  by pat_completeness auto
termination
  by (relation "measure (\<lambda>(h, t, i, cnt). 1000 - i)") auto

text \<open>\<open>return cnt / ClusterSize;\<close> is a division of two \<open>int\<close>, undefined for a zero divisor.\<close>

definition hashfull :: "tt_header \<Rightarrow> TranspositionTable \<Rightarrow> int option" where
  "hashfull h t =
     (case hashfull_clusters h t 0 0 of
        None \<Rightarrow> None
      | Some cnt \<Rightarrow> if ClusterSize h = 0 then None else Some (cnt sdiv int (ClusterSize h)))"

text \<open>
  The occupancy estimate in the words of the specification: among the first 1000
  clusters, or all of them if fewer exist, the number of entries that are occupied and
  stamped with the current generation, divided by the cluster size.
\<close>

definition fresh :: "tt_header \<Rightarrow> 8 word \<Rightarrow> TTEntry \<Rightarrow> bool" where
  "fresh h g e \<longleftrightarrow> depth8 e \<noteq> 0 \<and> uint (genBound8 e) AND GENERATION_MASK h = uint g"

definition hashfull_spec :: "tt_header \<Rightarrow> TranspositionTable \<Rightarrow> int" where
  "hashfull_spec h t =
     int (length (filter (fresh h (generation8 t)) (concat (take 1000 (table t)))))
       div int (ClusterSize h)"

subsection \<open>TranspositionTable::clear\<close>

text \<open>
  \<open>std::memset(&table[start], 0, len * sizeof(Cluster))\<close> makes \<open>len\<close> clusters from
  index \<open>start\<close> all-zero bytes: each is \<open>ClusterSize\<close> entries with every field 0.
  The ranges that \<open>clear\<close> passes lie inside the table (lemma \<open>stride_within\<close>).
\<close>

definition zero_entry :: TTEntry where
  "zero_entry = \<lparr>key16 = 0, depth8 = 0, genBound8 = 0, move16 = 0, value16 = 0, eval16 = 0\<rparr>"

definition zero_cluster :: "tt_header \<Rightarrow> Cluster" where
  "zero_cluster h = replicate (ClusterSize h) zero_entry"

definition memset_clusters :: "tt_header \<Rightarrow> nat \<Rightarrow> nat \<Rightarrow> Cluster list \<Rightarrow> Cluster list" where
  "memset_clusters h start len cs =
     take start cs @ replicate len (zero_cluster h) @ drop (start + len) cs"

text \<open>
  The work of thread \<open>i\<close>. The arithmetic is \<open>size_t\<close>; no value exceeds
  \<open>clusterCount\<close> for \<open>i < threadCount\<close>, so nothing wraps.
\<close>

definition stride_start :: "nat \<Rightarrow> nat \<Rightarrow> nat \<Rightarrow> nat" where
  "stride_start cc threadCount i = (cc div threadCount) * i"

definition stride_len :: "nat \<Rightarrow> nat \<Rightarrow> nat \<Rightarrow> nat" where
  "stride_len cc threadCount i =
     (if i + 1 \<noteq> threadCount then cc div threadCount else cc - stride_start cc threadCount i)"

definition clear_thread :: "tt_header \<Rightarrow> nat \<Rightarrow> nat \<Rightarrow> Cluster list \<Rightarrow> Cluster list" where
  "clear_thread h threadCount i cs =
     memset_clusters h (stride_start (length cs) threadCount i)
       (stride_len (length cs) threadCount i) cs"


text \<open>
  \<open>clear\<close> starts one task per thread of the pool and waits for all of them. The tasks
  read only \<open>clusterCount\<close> and write only their own stride; the model runs them one
  after the other, in the order of their indices. \<open>threadCount\<close> is
  \<open>threads.num_threads()\<close>.
\<close>

definition clear :: "tt_header \<Rightarrow> TranspositionTable \<Rightarrow> nat \<Rightarrow> TranspositionTable" where
  "clear h t threadCount =
     t\<lparr>table := fold (clear_thread h threadCount) [0..<threadCount] (table t)\<rparr>"

subsection \<open>TranspositionTable::resize\<close>

text \<open>
  What \<open>resize\<close> writes to \<open>std::cerr\<close> before \<open>exit(EXIT_FAILURE)\<close>: the pieces of
  the message, in order. \<open>EXIT_FAILURE\<close> is the C library's failure status, 1.
\<close>

datatype cerr_item = Str string | Num nat | Endl

datatype fatal = Exit "cerr_item list" int

definition EXIT_FAILURE :: int where
  "EXIT_FAILURE = 1"

text \<open>
  \<open>mbSize\<close> is a \<open>size_t\<close>, 64 bits wide: \<open>mbSize * 1024 * 1024\<close> wraps. The allocator
  of memory.h is a parameter: given the number of bytes it fails (\<open>None\<close>) or returns a
  block, of which the model sees the clusters it holds before they are zeroed
  (\<open>contents i\<close> for cluster \<open>i\<close>). The old block is freed.
\<close>

definition resize ::
  "tt_header \<Rightarrow> (nat \<Rightarrow> (nat \<Rightarrow> Cluster) option) \<Rightarrow> TranspositionTable \<Rightarrow> 64 word \<Rightarrow> nat
   \<Rightarrow> fatal + TranspositionTable" where
  "resize h alloc t mbSize threadCount =
     (let cc = unat (mbSize * 1024 * 1024) div sizeof_Cluster h
      in case alloc (cc * sizeof_Cluster h) of
           None \<Rightarrow>
             Inl (Exit [Str ''Failed to allocate '', Num (unat mbSize),
                        Str ''MB for transposition table.'', Endl] EXIT_FAILURE)
         | Some contents \<Rightarrow> Inr (clear h (t\<lparr>table := map contents [0..<cc]\<rparr>) threadCount))"

subsection \<open>Concrete tables\<close>

text \<open>
  A table of two clusters at generation 8. In its second cluster the first and the third
  entry carry generation 8, the second one generation 0.
\<close>

definition cluster_fresh :: Cluster where
  "cluster_fresh =
     [\<lparr>key16 = 0x0101, depth8 = 4, genBound8 = 9, move16 = 0, value16 = 1, eval16 = 1\<rparr>,
      \<lparr>key16 = 0x0202, depth8 = 5, genBound8 = 10, move16 = 0, value16 = 2, eval16 = 2\<rparr>,
      \<lparr>key16 = 0x0303, depth8 = 6, genBound8 = 11, move16 = 0, value16 = 3, eval16 = 3\<rparr>]"

definition cluster_demo :: Cluster where
  "cluster_demo =
     [\<lparr>key16 = 0x1111, depth8 = 20, genBound8 = 10, move16 = 0x41, value16 = 30, eval16 = 25\<rparr>,
      \<lparr>key16 = 0x2222, depth8 = 5, genBound8 = 2, move16 = 0x42, value16 = 0, eval16 = 7\<rparr>,
      \<lparr>key16 = 0x1234, depth8 = 7, genBound8 = 11, move16 = 0x43, value16 = 12, eval16 = 9\<rparr>]"

definition tt_demo :: TranspositionTable where
  "tt_demo = \<lparr>table = [cluster_fresh, cluster_demo], generation8 = 8\<rparr>"

text \<open>
  A table of 1000 clusters, and the table that has no cluster at all: the table before
  its first \<open>resize\<close>, when \<open>table\<close> is the null pointer.
\<close>

definition tt_1000 :: TranspositionTable where
  "tt_1000 = \<lparr>table = replicate 1000 cluster_demo, generation8 = 8\<rparr>"

definition tt_empty :: TranspositionTable where
  "tt_empty = \<lparr>table = [], generation8 = 0\<rparr>"

text \<open>
  A table of one cluster at generation 16 whose entries were written at the generations
  0, 8 and 16, with depths 50, 20 and 10: their replacement values are 18, 4 and 10.
  And a table of one cluster whose three entries have the same replacement value.
\<close>

definition cluster_aged :: Cluster where
  "cluster_aged =
     [\<lparr>key16 = 0x0A0A, depth8 = 50, genBound8 = 2, move16 = 0x41, value16 = 30, eval16 = 25\<rparr>,
      \<lparr>key16 = 0x0B0B, depth8 = 20, genBound8 = 10, move16 = 0x42, value16 = 0, eval16 = 7\<rparr>,
      \<lparr>key16 = 0x0C0C, depth8 = 10, genBound8 = 18, move16 = 0x43, value16 = 12, eval16 = 9\<rparr>]"

definition tt_aged :: TranspositionTable where
  "tt_aged = \<lparr>table = [cluster_aged], generation8 = 16\<rparr>"

definition tt_ties :: TranspositionTable where
  "tt_ties = \<lparr>table = [replicate 3 (zero_entry\<lparr>key16 := 0x0A0A, depth8 := 9, genBound8 := 18\<rparr>)],
              generation8 = 16\<rparr>"

text \<open>
  An allocator that serves requests of up to one gigabyte, with blocks that are not
  zeroed.
\<close>

definition alloc_demo :: "nat \<Rightarrow> (nat \<Rightarrow> Cluster) option" where
  "alloc_demo bytes = (if bytes \<le> 2 ^ 30 then Some (\<lambda>i. cluster_demo) else None)"

section \<open>The evaluator of evaluate.cpp\<close>

text \<open>
  \<open>Position\<close> (position.h) and the networks (nnue/network.h) are not among the
  sources. A position is the record of the answers to the queries that \<open>evaluate\<close>
  and \<open>simple_eval\<close> make: the side to move, \<open>count<PAWN>(c)\<close> and \<open>count<PAWN>()\<close>,
  \<open>non_pawn_material(c)\<close> and \<open>non_pawn_material()\<close>, \<open>rule50_count()\<close> and the
  bitboard \<open>checkers()\<close>. A network is the function from the position and the two flags
  to the value it returns and the complexity it writes through the pointer.
\<close>

datatype Color = WHITE | BLACK

definition flip_color :: "Color \<Rightarrow> Color" where
  "flip_color c = (case c of WHITE \<Rightarrow> BLACK | BLACK \<Rightarrow> WHITE)"

record Position =
  side_to_move :: Color
  count_PAWN :: "Color \<Rightarrow> int"
  count_PAWN_all :: int
  non_pawn_material :: "Color \<Rightarrow> int"
  non_pawn_material_all :: int
  rule50_count :: int
  checkers :: "64 word"

record Networks =
  small_evaluate :: "Position \<Rightarrow> bool \<Rightarrow> bool \<Rightarrow> Value \<times> int"
  big_evaluate :: "Position \<Rightarrow> bool \<Rightarrow> bool \<Rightarrow> Value \<times> int"

text \<open>
  The constants of types.h that \<open>evaluate\<close> uses are parameters; the two thresholds are
  those of evaluate.h.
\<close>

record types_h =
  PawnValue :: int
  VALUE_TB_WIN_IN_MAX_PLY :: int
  VALUE_TB_LOSS_IN_MAX_PLY :: int

definition SmallNetThreshold :: int where "SmallNetThreshold = 1136"
definition PsqtOnlyThreshold :: int where "PsqtOnlyThreshold = 2656"

text \<open>
  The arithmetic of \<open>evaluate\<close> is that of the 32-bit \<open>int\<close>. \<open>int32\<close> is the value
  that 32 bits hold in two's complement, the identity from \<open>-2^31\<close> to \<open>2^31 - 1\<close>;
  every sum, difference, product, quotient and absolute value of the source is taken and
  then cut to 32 bits, so a result that leaves the range wraps around as it does in the
  compiled engine. The division truncates towards zero, \<open>sdiv\<close>. Every \<open>int\<close> that
  \<open>evaluate\<close> reads (an argument, a constant, an answer of the position or of a
  network) is read through \<open>int32\<close>.
\<close>

definition int32 :: "int \<Rightarrow> int" where
  "int32 x = (x + 2 ^ 31) mod 2 ^ 32 - 2 ^ 31"

definition add32 :: "int \<Rightarrow> int \<Rightarrow> int" where "add32 a b = int32 (a + b)"
definition sub32 :: "int \<Rightarrow> int \<Rightarrow> int" where "sub32 a b = int32 (a - b)"
definition mul32 :: "int \<Rightarrow> int \<Rightarrow> int" where "mul32 a b = int32 (a * b)"
definition div32 :: "int \<Rightarrow> int \<Rightarrow> int" where "div32 a b = int32 (a sdiv b)"
definition abs32 :: "int \<Rightarrow> int" where "abs32 a = int32 \<bar>a\<bar>"

definition simple_eval :: "types_h \<Rightarrow> Position \<Rightarrow> Color \<Rightarrow> int" where
  "simple_eval K pos c =
     add32 (mul32 (int32 (PawnValue K))
                  (sub32 (int32 (count_PAWN pos c)) (int32 (count_PAWN pos (flip_color c)))))
           (sub32 (int32 (non_pawn_material pos c))
                  (int32 (non_pawn_material pos (flip_color c))))"

text \<open>
  \<open>std::clamp(v, lo, hi)\<close> is \<open>(v < lo) ? lo : (hi < v) ? hi : v\<close>. The conversion
  \<open>Value(r)\<close> of a \<open>float\<close> drops the fraction, towards zero.
\<close>

definition std_clamp :: "'a::linorder \<Rightarrow> 'a \<Rightarrow> 'a \<Rightarrow> 'a" where
  "std_clamp v lo hi = (if v < lo then lo else if hi < v then hi else v)"

definition float_to_int :: "real \<Rightarrow> int" where
  "float_to_int r = (if 0 \<le> r then \<lfloor>r\<rfloor> else \<lceil>r\<rceil>)"

text \<open>
  \<open>evaluate\<close>. \<open>RandomEval\<close> and \<open>WaitMs\<close> are the two globals; the sleep of
  \<open>WaitMs\<close> milliseconds changes no value. The draw \<open>d(rng)\<close> from the normal
  distribution is the argument \<open>sample\<close>, a finite \<open>float\<close> and so a real number;
  the two clamp bounds become \<open>float\<close> without rounding when they are at most
  \<open>2^24\<close> in magnitude. The assertion \<open>!pos.checkers()\<close> is the predicate
  \<open>evaluate_asserts\<close>.
\<close>

definition evaluate_asserts :: "Position \<Rightarrow> bool" where
  "evaluate_asserts pos \<longleftrightarrow> checkers pos = 0"

definition evaluate ::
  "types_h \<Rightarrow> int \<Rightarrow> int \<Rightarrow> real \<Rightarrow> Networks \<Rightarrow> Position \<Rightarrow> int \<Rightarrow> Value" where
  "evaluate K RandomEval WaitMs sample networks pos optimism =
     (let lo = add32 (int32 (VALUE_TB_LOSS_IN_MAX_PLY K)) 1;
          hi = sub32 (int32 (VALUE_TB_WIN_IN_MAX_PLY K)) 1;
          simpleEval = simple_eval K pos (side_to_move pos);
          smallNet = abs32 simpleEval > SmallNetThreshold;
          psqtOnly = abs32 simpleEval > PsqtOnlyThreshold;
          (nnue0, nnueComplexity0) =
             (if smallNet then small_evaluate networks pos True psqtOnly
              else big_evaluate networks pos True False);
          nnue = int32 nnue0;
          nnueComplexity = int32 nnueComplexity0;
          optimism1 = add32 (int32 optimism)
             (div32 (mul32 (int32 optimism)
                           (add32 nnueComplexity (abs32 (sub32 simpleEval nnue)))) 524);
          nnue1 = sub32 nnue
             (div32 (mul32 nnue (add32 nnueComplexity (abs32 (sub32 simpleEval nnue)))) 31950);
          npm = div32 (int32 (non_pawn_material_all pos)) 64;
          v = div32 (add32 (mul32 nnue1 (add32 (add32 927 npm)
                                               (mul32 9 (int32 (count_PAWN_all pos)))))
                           (mul32 optimism1 (add32 159 npm))) 1000;
          shuffling = int32 (rule50_count pos);
          v1 = div32 (mul32 v (sub32 195 shuffling)) 228;
          v2 = (if int32 RandomEval \<noteq> 0 \<or> int32 WaitMs \<noteq> 0
                then (let r = std_clamp sample (real_of_int lo) (real_of_int hi)
                      in div32 (add32 (mul32 (int32 RandomEval) (int32 (float_to_int r)))
                                      (mul32 (sub32 100 (int32 RandomEval)) v1)) 100)
                else v1)
      in std_clamp v2 lo hi)"

text \<open>A concrete position, two constant networks and values for the constants.\<close>

definition sf_types :: types_h where
  "sf_types = \<lparr>PawnValue = 208, VALUE_TB_WIN_IN_MAX_PLY = 31507,
               VALUE_TB_LOSS_IN_MAX_PLY = - 31507\<rparr>"

definition pos_demo :: Position where
  "pos_demo = \<lparr>side_to_move = WHITE,
               count_PAWN = (\<lambda>c. case c of WHITE \<Rightarrow> 8 | BLACK \<Rightarrow> 7),
               count_PAWN_all = 15,
               non_pawn_material = (\<lambda>c. case c of WHITE \<Rightarrow> 8000 | BLACK \<Rightarrow> 7500),
               non_pawn_material_all = 15500,
               rule50_count = 3, checkers = 0\<rparr>"

definition net_demo :: Networks where
  "net_demo = \<lparr>small_evaluate = (\<lambda>pos adjusted psqtOnly. (250, 40)),
               big_evaluate = (\<lambda>pos adjusted psqtOnly. (300, 60))\<rparr>"

section \<open>Properties of the entry operations\<close>

subsection \<open>Relative age\<close>

lemma word8_of_int_add_256: "(word_of_int (x + 256) :: 8 word) = word_of_int x"
proof -
  have "(256 :: 8 word) = 0" by simp
  then show ?thesis by simp
qed

lemma relative_age_word:
  "relative_age h e g =
     (word_of_int (GENERATION_CYCLE h) + g - genBound8 e) AND word_of_int (GENERATION_MASK h)"
  by (simp add: relative_age_def of_int_and_eq)

text \<open>
  Claim C7. The age computed in \<open>int\<close> and cut to a byte is the same formula evaluated
  in 8-bit arithmetic, and it is cyclic: a current generation of \<open>g1 + d\<close> and one of
  \<open>g1 + d + 256\<close> are the same byte and give the same age, for every entry.
\<close>

theorem relative_age_cyclic:
  "relative_age h e g =
     (word_of_int (GENERATION_CYCLE h) + g - genBound8 e) AND word_of_int (GENERATION_MASK h)
   \<and> relative_age h e (word_of_int (g1 + d)) = relative_age h e (word_of_int (g1 + d + 256))"
proof
  show "relative_age h e g =
     (word_of_int (GENERATION_CYCLE h) + g - genBound8 e) AND word_of_int (GENERATION_MASK h)"
    by (rule relative_age_word)
  show "relative_age h e (word_of_int (g1 + d)) = relative_age h e (word_of_int (g1 + d + 256))"
    by (subst word8_of_int_add_256) (rule refl)
qed

lemma int_and_7: "(x::int) AND 7 = x mod 8"
proof -
  have "(7::int) = mask 3" by (simp add: mask_eq_exp_minus_1)
  then have "x AND 7 = take_bit 3 x" by (simp add: take_bit_eq_mask)
  then show ?thesis by (simp add: take_bit_eq_mod)
qed

lemma int_and_255: "0 \<le> x \<Longrightarrow> x < 256 \<Longrightarrow> (x::int) AND 255 = x"
proof -
  assume a: "0 \<le> x" "x < 256"
  have "(255::int) = mask 8" by (simp add: mask_eq_exp_minus_1)
  then have "x AND 255 = take_bit 8 x" by (simp add: take_bit_eq_mask)
  with a show ?thesis by (simp add: take_bit_eq_mod)
qed

lemma int_and_248: "0 \<le> x \<Longrightarrow> x < 256 \<Longrightarrow> (x::int) AND 248 = x - x mod 8"
proof -
  assume a: "0 \<le> x" "x < 256"
  have d: "(x AND 248) AND (x AND 7) = 0"
  proof -
    have "(x AND 248) AND (x AND 7) = x AND (248 AND 7)"
      by (simp add: and.assoc and.left_commute)
    then show ?thesis by simp
  qed
  have "(x AND 248) + (x AND 7) = (x AND 248) OR (x AND 7)"
    using d by (rule disjunctive_add_eq_or)
  also have "\<dots> = x AND (248 OR 7)"
    by (simp only: bit.conj_disj_distrib)
  also have "\<dots> = x" using a by (simp add: int_and_255)
  finally show ?thesis by (simp add: int_and_7)
qed

lemma low_bits_masked: "0 \<le> r \<Longrightarrow> r < 8 \<Longrightarrow> ((263::int) - r) AND 248 = 0"
proof -
  assume "0 \<le> r" "r < 8"
  then have "r = 0 \<or> r = 1 \<or> r = 2 \<or> r = 3 \<or> r = 4 \<or> r = 5 \<or> r = 6 \<or> r = 7" by arith
  then show ?thesis by (elim disjE) simp_all
qed

text \<open>
  With the cycle constant 263 (256 plus the 7 that covers the three packed low bits, as
  the comment in \<open>relative_age\<close> describes) and the mask \<open>0xF8\<close>, an entry whose
  generation bits are the current generation has age 0, whatever its bound and pv bits.
\<close>

lemma same_generation_age:
  assumes "GENERATION_CYCLE h = 263" "GENERATION_MASK h = 248"
    and "uint (genBound8 e) AND 248 = uint g"
  shows "relative_age h e g = 0"
proof -
  let ?x = "uint (genBound8 e)"
  have b: "0 \<le> ?x" "?x < 256" using uint_lt2p [of "genBound8 e"] by simp_all
  have "263 + uint g - ?x = 263 - ?x mod 8"
    using assms(3) int_and_248 [OF b] by simp
  moreover have "(263 - ?x mod 8) AND 248 = 0"
    by (rule low_bits_masked) simp_all
  ultimately have "(263 + uint g - ?x) AND 248 = 0" by (simp only:)
  then show ?thesis by (simp only: relative_age_def assms(1,2) word_of_int_0)
qed

subsection \<open>Save\<close>

lemma relative_age_move16: "relative_age h (e\<lparr>move16 := m\<rparr>) g = relative_age h e g"
  by (simp add: relative_age_def)

text \<open>The two steps of \<open>save\<close> as one case distinction on the predicate \<open>overwrites\<close>.\<close>

lemma save_if:
  "save h e k v pv b d m ev g =
     (if overwrites h e k pv b d g
      then \<lparr>key16 = ucast k, depth8 = word_of_int (d - DEPTH_ENTRY_OFFSET h),
            genBound8 = word_of_int (uint g OR push_bit 2 (of_bool pv) OR Bound_value h b),
            move16 = (if m \<noteq> 0 \<or> key16 e \<noteq> ucast k then m else move16 e),
            value16 = word_of_int v, eval16 = word_of_int ev\<rparr>
      else e\<lparr>move16 := (if m \<noteq> 0 \<or> key16 e \<noteq> ucast k then m else move16 e)\<rparr>)"
proof -
  have c: "overwrites h e k pv b d g \<longleftrightarrow>
        (b = BOUND_EXACT \<or> (ucast k :: 16 word) \<noteq> key16 e
         \<or> d - DEPTH_ENTRY_OFFSET h + 2 * of_bool pv > uint (depth8 e) - 4
         \<or> relative_age h e g \<noteq> 0)"
    unfolding overwrites_def depth_def by (cases pv) auto
  show ?thesis
  proof (cases "m \<noteq> 0 \<or> (ucast k :: 16 word) \<noteq> key16 e")
    case True
    then have m: "(m \<noteq> 0 \<or> key16 e \<noteq> ucast k) = True" by auto
    from True show ?thesis
      unfolding save_def Let_def c m by (simp add: relative_age_move16)
  next
    case False
    then have m: "(m \<noteq> 0 \<or> key16 e \<noteq> ucast k) = False" by auto
    from False show ?thesis
      unfolding save_def Let_def c m by simp
  qed
qed

lemma uint_word8_of_int: "0 \<le> x \<Longrightarrow> x < 256 \<Longrightarrow> uint (word_of_int x :: 8 word) = x"
  by (simp add: uint_word_of_int take_bit_eq_mod)

text \<open>
  Under the two assertions of \<open>save\<close> a written depth is read back as it was given,
  and the entry written is occupied.
\<close>

lemma save_depth_stored:
  assumes "save_asserts h d" and "overwrites h e k pv b d g"
  shows "depth h (save h e k v pv b d m ev g) = d
       \<and> depth8 (save h e k v pv b d m ev g) \<noteq> 0"
proof -
  let ?x = "d - DEPTH_ENTRY_OFFSET h"
  from assms(1) have r: "0 < ?x" "?x < 256" by (simp_all add: save_asserts_def)
  have u: "uint (word_of_int ?x :: 8 word) = ?x"
    using r by (intro uint_word8_of_int) simp_all
  have nz: "(word_of_int ?x :: 8 word) \<noteq> 0"
  proof
    assume "(word_of_int ?x :: 8 word) = 0"
    then have "uint (word_of_int ?x :: 8 word) = 0" by simp
    with u r show False by simp
  qed
  show ?thesis using assms(2) u nz by (simp add: save_if depth_def)
qed

text \<open>
  Claim C2, as stated, fails. Its third condition asks the new depth plus the bonus to
  exceed the stored depth by more than a margin. A save of depth 10 on \<open>entry_d10\<close>,
  whose stored depth is 10, with bound LOWER, pv false, the same key fragment and the
  current generation meets none of the four conditions for the margin 0 (and so for no
  greater margin), yet \<open>save\<close> writes the new value and static eval.
\<close>

theorem save_equal_depth_counterexample:
  "depth sf_header entry_d10 = 10
   \<and> \<not> overwrites_by_margin sf_header entry_d10 0x1234 False BOUND_LOWER 10 8 0
   \<and> value16 entry_d10 = 100 \<and> eval16 entry_d10 = 50
   \<and> save sf_header entry_d10 0x1234 200 False BOUND_LOWER 10 0 60 8
       = \<lparr>key16 = 0x1234, depth8 = 13, genBound8 = 10, move16 = 0x41,
          value16 = 200, eval16 = 60\<rparr>"
  by (simp add: save_def Let_def overwrites_by_margin_def relative_age_def sf_header_def
      entry_d10_def depth_def bound_bits_def)

text \<open>
  Claim C2, amended. For every call of \<open>save\<close>: when the new bound is EXACT, or the
  key fragment differs, or the new depth plus the bonus 2 for a principal-variation node
  exceeds the stored depth minus 4, or the relative age of the entry is not zero, the
  key fragment, the depth, the generation/pv/bound byte, the value and the static eval
  are the new ones; when none of the four holds, these five fields are the old ones. The
  third disjunct of \<open>overwrites\<close> is the test
  \<open>d - DEPTH_ENTRY_OFFSET + 2 * pv > depth8 - 4\<close> of the source.
\<close>

theorem save_overwrite_iff:
  "(overwrites h e k pv b d g \<longrightarrow>
      key16 (save h e k v pv b d m ev g) = ucast k
      \<and> depth8 (save h e k v pv b d m ev g) = word_of_int (d - DEPTH_ENTRY_OFFSET h)
      \<and> genBound8 (save h e k v pv b d m ev g)
          = word_of_int (uint g OR push_bit 2 (of_bool pv) OR Bound_value h b)
      \<and> value16 (save h e k v pv b d m ev g) = word_of_int v
      \<and> eval16 (save h e k v pv b d m ev g) = word_of_int ev)
   \<and> (\<not> overwrites h e k pv b d g \<longrightarrow>
      key16 (save h e k v pv b d m ev g) = key16 e
      \<and> depth8 (save h e k v pv b d m ev g) = depth8 e
      \<and> genBound8 (save h e k v pv b d m ev g) = genBound8 e
      \<and> value16 (save h e k v pv b d m ev g) = value16 e
      \<and> eval16 (save h e k v pv b d m ev g) = eval16 e)"
  by (simp add: save_if)

theorem save_overwrite_iff_witness:
  "overwrites sf_header entry_d10 0x1234 False BOUND_LOWER 9 8
   \<and> depth8 (save sf_header entry_d10 0x1234 200 False BOUND_LOWER 9 0 60 8) = 12
   \<and> \<not> overwrites sf_header entry_d10 0x1234 False BOUND_LOWER 6 8
   \<and> depth8 (save sf_header entry_d10 0x1234 200 False BOUND_LOWER 6 0 60 8) = 13"
proof -
  have a: "overwrites sf_header entry_d10 0x1234 False BOUND_LOWER 9 8"
    by (simp add: overwrites_def sf_header_def entry_d10_def depth_def)
  have b: "\<not> overwrites sf_header entry_d10 0x1234 False BOUND_LOWER 6 8"
    by (simp add: overwrites_def sf_header_def entry_d10_def depth_def relative_age_def)
  show ?thesis
    using a b
      save_overwrite_iff [of sf_header entry_d10 "0x1234" False BOUND_LOWER 9 8 200 0 60]
      save_overwrite_iff [of sf_header entry_d10 "0x1234" False BOUND_LOWER 6 8 200 0 60]
    by (simp add: sf_header_def entry_d10_def)
qed



text \<open>
  Claim C1, as stated, fails. The entry \<open>entry_d10\<close> has depth 10, bound LOWER, the
  key fragment of the fingerprint and the current generation 8; a save of depth 9 with
  bound LOWER and pv false rewrites it, since \<open>9 + 3 > 13 - 4\<close>: the stored depth
  becomes 9 and value and eval are the new ones.
\<close>

theorem save_depth9_counterexample:
  "depth sf_header entry_d10 = 10
   \<and> uint (genBound8 entry_d10) AND 3 = Bound_value sf_header BOUND_LOWER
   \<and> uint (genBound8 entry_d10) AND GENERATION_MASK sf_header = uint (8 :: 8 word)
   \<and> key16 entry_d10 = ucast (0x1234 :: Key)
   \<and> save sf_header entry_d10 0x1234 200 False BOUND_LOWER 9 0 60 8
       = \<lparr>key16 = 0x1234, depth8 = 12, genBound8 = 10, move16 = 0x41,
          value16 = 200, eval16 = 60\<rparr>
   \<and> depth sf_header (save sf_header entry_d10 0x1234 200 False BOUND_LOWER 9 0 60 8) = 9"
  by (simp add: save_def Let_def sf_header_def entry_d10_def depth_def bound_bits_def)

text \<open>
  Claim C1, amended. Take the cycle constant 263 and the mask \<open>0xF8\<close>, an entry of
  depth 10 whose generation bits are the current generation and whose key fragment is
  that of the fingerprint (whatever its stored bound). A save with bound LOWER and pv
  false leaves everything but the move unchanged when the new depth is at most 6, that
  is, at most the stored depth minus 4, and rewrites the entry when the new depth is 7 or
  more, so also for depth 9. A save with bound EXACT rewrites the entry whatever the
  depth and pv.
\<close>

theorem save_depth10_scenario:
  assumes "GENERATION_CYCLE h = 263" and "GENERATION_MASK h = 248"
    and "uint (genBound8 e) AND GENERATION_MASK h = uint g"
    and "key16 e = ucast k" and "depth h e = 10"
  shows "(d \<le> 6 \<longrightarrow>
            save h e k v False BOUND_LOWER d m ev g
              = e\<lparr>move16 := (if m \<noteq> 0 then m else move16 e)\<rparr>)
       \<and> (7 \<le> d \<longrightarrow>
            save h e k v False BOUND_LOWER d m ev g
              = \<lparr>key16 = ucast k, depth8 = word_of_int (d - DEPTH_ENTRY_OFFSET h),
                 genBound8 = word_of_int (uint g OR push_bit 2 (of_bool False)
                                          OR Bound_value h BOUND_LOWER),
                 move16 = (if m \<noteq> 0 then m else move16 e),
                 value16 = word_of_int v, eval16 = word_of_int ev\<rparr>)
       \<and> save h e k v pv BOUND_EXACT d m ev g
              = \<lparr>key16 = ucast k, depth8 = word_of_int (d - DEPTH_ENTRY_OFFSET h),
                 genBound8 = word_of_int (uint g OR push_bit 2 (of_bool pv)
                                          OR Bound_value h BOUND_EXACT),
                 move16 = (if m \<noteq> 0 then m else move16 e),
                 value16 = word_of_int v, eval16 = word_of_int ev\<rparr>"
proof -
  have age: "relative_age h e g = 0"
    using assms(1-3) by (simp add: same_generation_age)
  have lower: "overwrites h e k False BOUND_LOWER d g \<longleftrightarrow> 7 \<le> d"
    using assms(4,5) age by (auto simp: overwrites_def)
  have exact: "overwrites h e k pv BOUND_EXACT d g"
    by (simp add: overwrites_def)
  show ?thesis
    using assms(4) lower exact by (simp add: save_if)
qed

theorem save_depth10_scenario_witness:
  "save sf_header entry_d10 0x1234 200 False BOUND_LOWER 6 0 60 8 = entry_d10
   \<and> save sf_header entry_d10 0x1234 200 False BOUND_LOWER 7 0 60 8
       = \<lparr>key16 = 0x1234, depth8 = 10, genBound8 = 10, move16 = 0x41,
          value16 = 200, eval16 = 60\<rparr>
   \<and> save sf_header entry_d10 0x1234 200 True BOUND_EXACT 1 0 60 8
       = \<lparr>key16 = 0x1234, depth8 = 4, genBound8 = 15, move16 = 0x41,
          value16 = 200, eval16 = 60\<rparr>"
proof -
  have h: "GENERATION_CYCLE sf_header = 263" "GENERATION_MASK sf_header = 248"
    "uint (genBound8 entry_d10) AND GENERATION_MASK sf_header = uint (8 :: 8 word)"
    "key16 entry_d10 = ucast (0x1234 :: Key)" "depth sf_header entry_d10 = 10"
    by (simp_all add: sf_header_def entry_d10_def depth_def)
  show ?thesis
    using save_depth10_scenario [OF h, where d = 6 and v = 200 and m = 0 and ev = 60 and pv = True]
      save_depth10_scenario [OF h, where d = 7 and v = 200 and m = 0 and ev = 60 and pv = True]
      save_depth10_scenario [OF h, where d = 1 and v = 200 and m = 0 and ev = 60 and pv = True]
    by (simp add: sf_header_def entry_d10_def bound_bits_def)
qed

section \<open>Properties of the table operations\<close>

subsection \<open>Probe\<close>

lemma first_entry_less: "0 < clusterCount t \<Longrightarrow> first_entry t key < clusterCount t"
proof -
  assume pos: "0 < clusterCount t"
  have "unat key < 2 ^ 64" using unsigned_less [of key, where ?'a = nat] by simp
  then have "unat key * clusterCount t < 2 ^ 64 * clusterCount t"
    using pos by simp
  then have "unat key * clusterCount t div 2 ^ 64 < clusterCount t"
    by (simp add: less_mult_imp_div_less mult.commute)
  then show ?thesis by (simp add: first_entry_def mul_hi64_def)
qed

lemma find_key_None: "find_key k es i = None \<longleftrightarrow> (\<forall>e \<in> set es. key16 e \<noteq> k)"
  by (induction es arbitrary: i) auto

lemma find_key_Some:
  "find_key k es i = Some (j, e) \<Longrightarrow>
     i \<le> j \<and> j - i < length es \<and> es ! (j - i) = e \<and> key16 e = k
     \<and> (\<forall>m < j - i. key16 (es ! m) \<noteq> k)"
proof (induction es arbitrary: i)
  case Nil
  then show ?case by simp
next
  case (Cons a es)
  show ?case
  proof (cases "key16 a = k")
    case True
    with Cons.prems show ?thesis by auto
  next
    case False
    with Cons.prems have r: "find_key k es (Suc i) = Some (j, e)" by simp
    from Cons.IH [OF r] have ih: "Suc i \<le> j" "j - Suc i < length es" "es ! (j - Suc i) = e"
      "key16 e = k" "\<forall>m < j - Suc i. key16 (es ! m) \<noteq> k" by auto
    from ih(1) have ji: "j - i = Suc (j - Suc i)" by simp
    have "\<forall>m < j - i. key16 ((a # es) ! m) \<noteq> k"
    proof (intro allI impI)
      fix m assume "m < j - i"
      then show "key16 ((a # es) ! m) \<noteq> k"
        using False ih(5) ji by (cases m) auto
    qed
    with ih ji show ?thesis by simp
  qed
qed

lemma find_replace_first_min:
  assumes "c = pre @ es" and "length pre = i" and "ri < i" and "c ! ri = r"
    and "\<forall>m < i. replace_value h g r \<le> replace_value h g (c ! m)"
    and "\<forall>m < ri. replace_value h g r < replace_value h g (c ! m)"
  shows "find_replace h g (ri, r) es i < length c
     \<and> (\<forall>m < length c. replace_value h g (c ! find_replace h g (ri, r) es i)
                           \<le> replace_value h g (c ! m))
     \<and> (\<forall>m < find_replace h g (ri, r) es i.
           replace_value h g (c ! find_replace h g (ri, r) es i) < replace_value h g (c ! m))"
  using assms
proof (induction es arbitrary: pre i ri r)
  case Nil
  then show ?case by auto
next
  case (Cons e es)
  have ci: "c ! i = e" using Cons.prems(1,2) by (simp add: nth_append)
  have c': "c = (pre @ [e]) @ es" using Cons.prems(1) by simp
  have l': "length (pre @ [e]) = Suc i" using Cons.prems(2) by simp
  show ?case
  proof (cases "replace_value h g r > replace_value h g e")
    case True
    have a: "\<forall>m < Suc i. replace_value h g e \<le> replace_value h g (c ! m)"
    proof (intro allI impI)
      fix m assume "m < Suc i"
      then consider "m < i" | "m = i" by linarith
      then show "replace_value h g e \<le> replace_value h g (c ! m)"
      proof cases
        case 1 then show ?thesis using Cons.prems(5) True by force
      next
        case 2 then show ?thesis using ci by simp
      qed
    qed
    have b: "\<forall>m < i. replace_value h g e < replace_value h g (c ! m)"
      using Cons.prems(5) True by force
    from Cons.IH [OF c' l' _ ci a b] True show ?thesis by simp
  next
    case False
    have a: "\<forall>m < Suc i. replace_value h g r \<le> replace_value h g (c ! m)"
    proof (intro allI impI)
      fix m assume "m < Suc i"
      then consider "m < i" | "m = i" by linarith
      then show "replace_value h g r \<le> replace_value h g (c ! m)"
      proof cases
        case 1 then show ?thesis using Cons.prems(5) by simp
      next
        case 2 then show ?thesis using ci False by simp
      qed
    qed
    have lt: "ri < Suc i" using Cons.prems(3) by simp
    from Cons.IH [OF c' l' lt Cons.prems(4) a Cons.prems(6)] False show ?thesis by simp
  qed
qed

lemma probe_first_min:
  assumes "0 < clusterCount t" and "table t ! first_entry t key \<noteq> []"
    and "\<forall>e \<in> set (table t ! first_entry t key). key16 e \<noteq> ucast key"
  shows "\<exists>j < length (table t ! first_entry t key).
           probe h t key = Some (False, first_entry t key, j)
           \<and> (\<forall>m < length (table t ! first_entry t key).
                 replace_value h (generation8 t) (table t ! first_entry t key ! j)
                   \<le> replace_value h (generation8 t) (table t ! first_entry t key ! m))
           \<and> (\<forall>m < j.
                 replace_value h (generation8 t) (table t ! first_entry t key ! j)
                   < replace_value h (generation8 t) (table t ! first_entry t key ! m))"
proof -
  let ?i = "first_entry t key"
  let ?c = "table t ! ?i"
  let ?g = "generation8 t"
  have i: "?i < length (table t)"
    using first_entry_less [OF assms(1)] by (simp add: clusterCount_def)
  have f: "find_key (ucast key) ?c 0 = None" using assms(3) by (simp add: find_key_None)
  from assms(2) obtain e0 es where c: "?c = e0 # es" by (cases ?c) auto
  have pr: "probe h t key = Some (False, ?i, find_replace h ?g (0, e0) es 1)"
    using i f c by (simp add: probe_def Let_def)
  have "find_replace h ?g (0, e0) es 1 < length ?c
     \<and> (\<forall>m < length ?c. replace_value h ?g (?c ! find_replace h ?g (0, e0) es 1)
                           \<le> replace_value h ?g (?c ! m))
     \<and> (\<forall>m < find_replace h ?g (0, e0) es 1.
           replace_value h ?g (?c ! find_replace h ?g (0, e0) es 1) < replace_value h ?g (?c ! m))"
  proof (rule find_replace_first_min [where pre = "[e0]"])
    show "?c = [e0] @ es" using c by simp
    show "length [e0] = 1" by simp
    show "(0::nat) < 1" by simp
    show "?c ! 0 = e0" using c by simp
    show "\<forall>m<1. replace_value h ?g e0 \<le> replace_value h ?g (?c ! m)" using c by simp
    show "\<forall>m<0. replace_value h ?g e0 < replace_value h ?g (?c ! m)" by simp
  qed
  with pr show ?thesis by auto
qed

lemma probe_first_match:
  assumes "0 < clusterCount t"
    and "\<exists>e \<in> set (table t ! first_entry t key). key16 e = ucast key"
  shows "\<exists>j < length (table t ! first_entry t key).
           probe h t key = Some (depth8 (table t ! first_entry t key ! j) \<noteq> 0, first_entry t key, j)
           \<and> key16 (table t ! first_entry t key ! j) = ucast key
           \<and> (\<forall>m < j. key16 (table t ! first_entry t key ! m) \<noteq> ucast key)"
proof -
  let ?i = "first_entry t key"
  let ?c = "table t ! ?i"
  let ?k = "ucast key :: 16 word"
  have i: "?i < length (table t)"
    using first_entry_less [OF assms(1)] by (simp add: clusterCount_def)
  from assms(2) have "find_key ?k ?c 0 \<noteq> None" by (simp add: find_key_None)
  then obtain j e where f: "find_key ?k ?c 0 = Some (j, e)" by auto
  from find_key_Some [OF f] have "j < length ?c" "?c ! j = e" "key16 e = ?k"
    "\<forall>m < j. key16 (?c ! m) \<noteq> ?k" by auto
  moreover have "probe h t key = Some (depth8 e \<noteq> 0, ?i, j)"
    using i f by (simp add: probe_def Let_def)
  ultimately show ?thesis by auto
qed

text \<open>
  Claim C3. On a table that has clusters, for a fingerprint whose owning cluster has
  entries: the owning cluster is the one at \<open>first_entry\<close>. If an entry of it has
  the key fragment of the fingerprint, \<open>probe\<close> returns the first such entry, and
  \<open>found\<close> is true exactly when its \<open>depth8\<close> is not zero. If none has, \<open>found\<close>
  is false and the entry returned has the least value \<open>depth8\<close> minus 2 times
  \<open>relative_age(generation8)\<close> of the cluster and is the first entry that has it:
  every entry before it has a strictly greater value, so ties keep the earlier entry and
  the first entry is kept unless a later one is strictly smaller.
\<close>

theorem probe_result:
  assumes "0 < clusterCount t" and "table t ! first_entry t key \<noteq> []"
  shows "first_entry t key < clusterCount t \<and>
     (let c = table t ! first_entry t key; k16 = (ucast key :: 16 word); g = generation8 t
      in if \<exists>e \<in> set c. key16 e = k16
         then \<exists>j < length c. probe h t key = Some (depth8 (c ! j) \<noteq> 0, first_entry t key, j)
                \<and> key16 (c ! j) = k16 \<and> (\<forall>m < j. key16 (c ! m) \<noteq> k16)
         else \<exists>j < length c. probe h t key = Some (False, first_entry t key, j)
                \<and> (\<forall>m < length c.
                      uint (depth8 (c ! j)) - 2 * uint (relative_age h (c ! j) g)
                        \<le> uint (depth8 (c ! m)) - 2 * uint (relative_age h (c ! m) g))
                \<and> (\<forall>m < j.
                      uint (depth8 (c ! j)) - 2 * uint (relative_age h (c ! j) g)
                        < uint (depth8 (c ! m)) - 2 * uint (relative_age h (c ! m) g)))"
proof (cases "\<exists>e \<in> set (table t ! first_entry t key). key16 e = ucast key")
  case True
  from probe_first_match [OF assms(1) True, of h] True first_entry_less [OF assms(1), of key]
  show ?thesis by (simp add: Let_def)
next
  case False
  then have n: "\<forall>e \<in> set (table t ! first_entry t key). key16 e \<noteq> ucast key" by simp
  have v: "\<And>e. replace_value h (generation8 t) e
             = uint (depth8 e) - 2 * uint (relative_age h e (generation8 t))"
    by (simp add: replace_value_def)
  from probe_first_min [OF assms n, of h, unfolded v] False
    first_entry_less [OF assms(1), of key]
  show ?thesis by (simp add: Let_def)
qed

text \<open>
  In \<open>tt_aged\<close> the values are 18, 4 and 10, and the second entry is returned; without
  the ageing term the third entry (depth 10) would be, and with 8 in place of 2 the first
  (\<open>50 - 128\<close>). In \<open>tt_ties\<close> all values are equal and the first entry is returned.
\<close>

theorem probe_result_witness:
  "0 < clusterCount tt_aged \<and> table tt_aged ! first_entry tt_aged 0x9999 \<noteq> []
   \<and> map (\<lambda>e. uint (depth8 e) - 2 * uint (relative_age sf_header e (generation8 tt_aged)))
        cluster_aged = [18, 4, 10]
   \<and> probe sf_header tt_aged 0x9999 = Some (False, 0, 1)
   \<and> probe sf_header tt_aged 0x0C0C = Some (True, 0, 2)
   \<and> probe sf_header tt_ties 0x9999 = Some (False, 0, 0)"
proof -
  have a: "0 < clusterCount tt_aged" "0 < clusterCount tt_ties"
    by (simp_all add: clusterCount_def tt_aged_def tt_ties_def)
  have b: "table tt_aged ! first_entry tt_aged 0x9999 \<noteq> []"
    "table tt_aged ! first_entry tt_aged 0x0C0C \<noteq> []"
    "table tt_ties ! first_entry tt_ties 0x9999 \<noteq> []"
    by (simp_all add: first_entry_def mul_hi64_def clusterCount_def tt_aged_def tt_ties_def
        cluster_aged_def)
  have c: "map (\<lambda>e. uint (depth8 e) - 2 * uint (relative_age sf_header e (generation8 tt_aged)))
        cluster_aged = [18, 4, 10]"
    by (simp add: cluster_aged_def tt_aged_def relative_age_def sf_header_def)
  have p: "probe sf_header tt_aged 0x9999 = Some (False, 0, 1)"
    "probe sf_header tt_aged 0x0C0C = Some (True, 0, 2)"
    by (simp_all add: probe_def first_entry_def mul_hi64_def clusterCount_def tt_aged_def
        cluster_aged_def replace_value_def relative_age_def sf_header_def)
  have q: "probe sf_header tt_ties 0x9999 = Some (False, 0, 0)"
    by (simp add: probe_def first_entry_def mul_hi64_def clusterCount_def
        tt_ties_def replace_value_def relative_age_def sf_header_def
        zero_entry_def numeral_3_eq_3)
  show ?thesis
    using a b c p q probe_result [OF a(1) b(1), of sf_header]
      probe_result [OF a(1) b(2), of sf_header] probe_result [OF a(2) b(3), of sf_header]
    by simp
qed

subsection \<open>Hashfull\<close>

lemma hashfull_entries_count:
  "hashfull_entries h g es cnt = cnt + int (length (filter (fresh h g) es))"
  by (induction es arbitrary: cnt) (simp_all add: fresh_def)

lemma hashfull_clusters_short:
  "length (table t) < 1000 \<Longrightarrow> i \<le> length (table t) \<Longrightarrow> hashfull_clusters h t i cnt = None"
proof (induction h t i cnt rule: hashfull_clusters.induct)
  case (1 h t i cnt)
  show ?case
  proof (cases "i < length (table t)")
    case True
    with 1 show ?thesis by (subst hashfull_clusters.simps) simp
  next
    case False
    with 1 show ?thesis by (subst hashfull_clusters.simps) simp
  qed
qed

lemma hashfull_clusters_long:
  "1000 \<le> length (table t) \<Longrightarrow> i \<le> 1000 \<Longrightarrow>
   hashfull_clusters h t i cnt =
     Some (cnt + int (length (filter (fresh h (generation8 t))
                                (concat (take (1000 - i) (drop i (table t)))))))"
proof (induction h t i cnt rule: hashfull_clusters.induct)
  case (1 h t i cnt)
  show ?case
  proof (cases "i < 1000")
    case True
    with 1 have il: "i < length (table t)" by simp
    have d: "take (1000 - i) (drop i (table t))
               = table t ! i # take (1000 - Suc i) (drop (Suc i) (table t))"
    proof -
      have "drop i (table t) = table t ! i # drop (Suc i) (table t)"
        using il by (simp add: Cons_nth_drop_Suc)
      moreover have "1000 - i = Suc (1000 - Suc i)" using True by simp
      ultimately show ?thesis by (simp only: take_Suc_Cons)
    qed
    from 1 True il have "hashfull_clusters h t (Suc i)
           (hashfull_entries h (generation8 t) (table t ! i) cnt)
        = Some (hashfull_entries h (generation8 t) (table t ! i) cnt
            + int (length (filter (fresh h (generation8 t))
                            (concat (take (1000 - Suc i) (drop (Suc i) (table t)))))))"
      by simp
    then show ?thesis
      using True il by (subst hashfull_clusters.simps) (simp add: d hashfull_entries_count)
  next
    case False
    with 1 have "i = 1000" by simp
    then show ?thesis by (subst hashfull_clusters.simps) simp
  qed
qed

lemma sdiv_nonneg: "0 \<le> a \<Longrightarrow> 0 < b \<Longrightarrow> a sdiv b = (a::int) div b"
  by (simp add: signed_divide_int_def sgn_if)

lemma length_filter_concat_replicate:
  "length (filter P (concat (replicate n c))) = n * length (filter P c)"
  by (induction n) simp_all

lemma concat_length_bound:
  "list_all (\<lambda>c. length c = n) cs \<Longrightarrow> length (concat cs) = n * length cs"
  by (induction cs) simp_all

text \<open>
  Claim C4, as stated, fails on the table that has fewer than 1000 clusters because it
  has none. \<open>tt_empty\<close> is the table before its first \<open>resize\<close>: counting over all
  its clusters gives 0, but the loop of \<open>hashfull\<close> starts at \<open>table[0]\<close> whatever
  \<open>clusterCount\<close> is, and \<open>table\<close> is the null pointer.
\<close>

theorem hashfull_no_table_counterexample:
  "clusterCount tt_empty = 0 \<and> hashfull_spec sf_header tt_empty = 0
   \<and> hashfull sf_header tt_empty = None"
  by (simp add: hashfull_def hashfull_clusters_short hashfull_spec_def tt_empty_def
      clusterCount_def)

text \<open>
  Claim C4, amended. On a table of at least 1000 clusters (each of \<open>ClusterSize\<close>
  entries, \<open>ClusterSize\<close> not zero) \<open>hashfull\<close> inspects exactly the first 1000
  clusters, counts their entries with a non-zero \<open>depth8\<close> whose generation bits are the
  current generation, and returns that count divided by \<open>ClusterSize\<close>, a value from
  0 to 1000. Every table with clusters that \<open>resize\<close> makes has at least 1000 of them
  when a cluster is at most 1048 bytes (lemma \<open>resize_cluster_range\<close>).
\<close>

theorem hashfull_first_1000:
  assumes "1000 \<le> clusterCount t" and "0 < ClusterSize h" and "table_ok h t"
  shows "hashfull h t = Some (hashfull_spec h t)
       \<and> 0 \<le> hashfull_spec h t \<and> hashfull_spec h t \<le> 1000"
proof -
  let ?n = "length (filter (fresh h (generation8 t)) (concat (take 1000 (table t))))"
  have len: "1000 \<le> length (table t)" using assms(1) by (simp add: clusterCount_def)
  have "hashfull_clusters h t 0 0 = Some (int ?n)"
    using hashfull_clusters_long [OF len, of 0 h 0] by simp
  then have eq: "hashfull h t = Some (hashfull_spec h t)"
    using assms(2) by (simp add: hashfull_def hashfull_spec_def sdiv_nonneg)
  have "list_all (\<lambda>c. length c = ClusterSize h) (take 1000 (table t))"
    using assms(3) by (auto simp: table_ok_def list_all_iff dest: in_set_takeD)
  then have "length (concat (take 1000 (table t))) = ClusterSize h * 1000"
    using len by (simp add: concat_length_bound)
  moreover have "?n \<le> length (concat (take 1000 (table t)))" by (rule length_filter_le)
  ultimately have "?n \<le> ClusterSize h * 1000" by simp
  then have "?n div ClusterSize h \<le> (ClusterSize h * 1000) div ClusterSize h"
    by (rule div_le_mono)
  then have "?n div ClusterSize h \<le> 1000"
    using assms(2) by simp
  then have "hashfull_spec h t \<le> 1000"
    unfolding hashfull_spec_def by (simp add: zdiv_int [symmetric])
  moreover have "0 \<le> hashfull_spec h t"
    unfolding hashfull_spec_def by (simp add: pos_imp_zdiv_nonneg_iff assms(2))
  ultimately show ?thesis using eq by simp
qed

theorem hashfull_first_1000_witness:
  "1000 \<le> clusterCount tt_1000 \<and> 0 < ClusterSize sf_header \<and> table_ok sf_header tt_1000
   \<and> hashfull sf_header tt_1000 = Some 666"
proof -
  have a: "1000 \<le> clusterCount tt_1000" by (simp add: clusterCount_def tt_1000_def)
  have b: "0 < ClusterSize sf_header" by (simp add: sf_header_def)
  have c: "table_ok sf_header tt_1000"
    by (simp add: table_ok_def tt_1000_def list_all_iff cluster_demo_def sf_header_def)
  have d: "hashfull_spec sf_header tt_1000 = 666"
    by (simp add: hashfull_spec_def tt_1000_def length_filter_concat_replicate
        cluster_demo_def fresh_def sf_header_def)
  show ?thesis using a b c d hashfull_first_1000 [OF a b c] by simp
qed

subsection \<open>Clear and resize\<close>

lemma stride_mult_le: "i \<le> n \<Longrightarrow> (cc div n) * i \<le> (cc::nat)"
proof -
  assume "i \<le> n"
  then have "(cc div n) * i \<le> (cc div n) * n" by simp
  also have "\<dots> \<le> cc" by simp
  finally show ?thesis .
qed

lemma stride_within:
  assumes "i < n"
  shows "stride_start cc n i + stride_len cc n i \<le> cc"
proof (cases "i + 1 \<noteq> n")
  case True
  with assms have "Suc i \<le> n" by simp
  from stride_mult_le [OF this, of cc] True show ?thesis
    by (simp add: stride_start_def stride_len_def)
next
  case False
  have "(cc div n) * i \<le> cc" using assms by (simp add: stride_mult_le)
  with False show ?thesis by (simp add: stride_start_def stride_len_def)
qed




lemma length_memset_clusters:
  "start + len \<le> length cs \<Longrightarrow> length (memset_clusters h start len cs) = length cs"
  by (simp add: memset_clusters_def)

lemma length_clear_thread: "i < n \<Longrightarrow> length (clear_thread h n i cs) = length cs"
  unfolding clear_thread_def by (rule length_memset_clusters) (rule stride_within)

lemma length_fold_clear:
  "j \<le> n \<Longrightarrow> length (fold (clear_thread h n) [0..<j] cs) = length cs"
  by (induction j) (simp_all add: length_clear_thread)




lemma clusterCount_clear: "clusterCount (clear h t n) = clusterCount t"
  by (simp add: clear_def clusterCount_def length_fold_clear)



lemma probe_returns:
  assumes "0 < clusterCount t" and "table t ! first_entry t key \<noteq> []"
  shows "\<exists>f j. probe h t key = Some (f, first_entry t key, j)"
proof -
  have i: "first_entry t key < length (table t)"
    using first_entry_less [OF assms(1)] by (simp add: clusterCount_def)
  from assms(2) obtain e0 es where c: "table t ! first_entry t key = e0 # es"
    by (cases "table t ! first_entry t key") auto
  show ?thesis
    using i c by (auto simp: probe_def Let_def split: option.splits)
qed


lemma resize_Inr:
  "resize h alloc t mbSize n = Inr t' \<Longrightarrow>
   \<exists>contents. t' = clear h (t\<lparr>table := map contents
                    [0..<unat (mbSize * 1024 * 1024) div sizeof_Cluster h]\<rparr>) n"
  by (auto simp: resize_def Let_def split: option.splits)



text \<open>
  Claim C8. After a \<open>resize\<close> that returns, \<open>clusterCount\<close> is
  \<open>mbSize * 1024 * 1024 / sizeof(Cluster)\<close>, the product taken in \<open>size_t\<close> and the
  division an integer division; nothing is rounded to a power of two, and the \<open>clear\<close>
  that ends \<open>resize\<close> keeps the count. For a request below \<open>2 ^ 44\<close> megabytes the
  product does not wrap and is the product of the numbers.
\<close>

theorem resize_clusterCount:
  assumes "resize h alloc t mbSize threadCount = Inr t'"
  shows "clusterCount t' = unat (mbSize * 1024 * 1024) div sizeof_Cluster h
       \<and> (unat mbSize < 2 ^ 44 \<longrightarrow>
            clusterCount t' = unat mbSize * 1024 * 1024 div sizeof_Cluster h)"
proof -
  from resize_Inr [OF assms] obtain contents where
    t': "t' = clear h (t\<lparr>table := map contents
                    [0..<unat (mbSize * 1024 * 1024) div sizeof_Cluster h]\<rparr>) threadCount"
    by blast
  have a: "clusterCount t' = unat (mbSize * 1024 * 1024) div sizeof_Cluster h"
    unfolding t' clusterCount_clear by (simp add: clusterCount_def)
  have b: "unat mbSize < 2 ^ 44 \<Longrightarrow> unat (mbSize * 1024 * 1024) = unat mbSize * 1024 * 1024"
  proof -
    assume "unat mbSize < 2 ^ 44"
    then have "unat mbSize * 1048576 < 2 ^ 64" by simp
    then have "unat (mbSize * 1048576) = unat mbSize * 1048576"
      by (simp add: unat_word_ariths)
    then show ?thesis by (simp add: mult.assoc)
  qed
  from a b show ?thesis by simp
qed

theorem resize_clusterCount_witness:
  "unat (3 :: 64 word) < 2 ^ 44
   \<and> (case resize sf_header alloc_demo tt_empty 3 1 of
         Inl x \<Rightarrow> False
       | Inr t' \<Rightarrow> clusterCount t' = 98304)"
proof -
  have r: "resize sf_header alloc_demo tt_empty 3 1
     = Inr (clear sf_header (tt_empty\<lparr>table := map (\<lambda>i. cluster_demo) [0..<98304]\<rparr>) 1)"
    by (simp add: resize_def alloc_demo_def sf_header_def)
  have c: "clusterCount (clear sf_header
              (tt_empty\<lparr>table := map (\<lambda>i. cluster_demo) [0..<98304]\<rparr>) 1) = 98304"
    using resize_clusterCount [OF r] by (simp add: sf_header_def)
  show ?thesis unfolding r using c by simp
qed

subsection \<open>Failure\<close>

text \<open>
  With its assertions kept, \<open>save\<close> aborts exactly when it is to overwrite the entry
  and the depth is outside the asserted range; otherwise it does what \<open>save\<close> does.
\<close>

lemma save_checked_eq:
  "save_checked h e k v pv b d m ev g =
     (if overwrites h e k pv b d g \<and> \<not> save_asserts h d then None
      else Some (save h e k v pv b d m ev g))"
proof -
  have c: "overwrites h e k pv b d g \<longleftrightarrow>
        (b = BOUND_EXACT \<or> (ucast k :: 16 word) \<noteq> key16 e
         \<or> d - DEPTH_ENTRY_OFFSET h + 2 * of_bool pv > uint (depth8 e) - 4
         \<or> relative_age h e g \<noteq> 0)"
    unfolding overwrites_def depth_def by (cases pv) auto
  show ?thesis
  proof (cases "m \<noteq> 0 \<or> (ucast k :: 16 word) \<noteq> key16 e")
    case True
    then show ?thesis
      unfolding save_checked_def save_def Let_def c save_asserts_def
      by (simp add: relative_age_move16)
  next
    case False
    then show ?thesis
      unfolding save_checked_def save_def Let_def c save_asserts_def by simp
  qed
qed

text \<open>
  The byte count \<open>mbSize * 1024 * 1024\<close>, also when it has wrapped, is a multiple of
  \<open>2^20\<close>. So a table that \<open>resize\<close> makes has no cluster or at least 1000 of them,
  when a cluster is at most 1048 bytes.
\<close>

lemma unat_megabytes: "unat (mbSize * 1024 * 1024 :: 64 word) = 0
    \<or> 1048576 \<le> unat (mbSize * 1024 * 1024 :: 64 word)"
proof -
  have "mbSize * 1024 * 1024 = mbSize * 1048576" by simp
  then have "unat (mbSize * 1024 * 1024) = (unat mbSize * 1048576) mod 2 ^ 64"
    by (simp add: unat_word_ariths mult.commute)
  moreover have "(1048576::nat) dvd (unat mbSize * 1048576) mod 2 ^ 64"
    by (rule dvd_mod) simp_all
  ultimately have "(1048576::nat) dvd unat (mbSize * 1024 * 1024)" by simp
  then show ?thesis by (auto simp: dvd_def)
qed

lemma resize_cluster_range:
  assumes "resize h alloc t mbSize n = Inr t'"
    and "0 < sizeof_Cluster h" and "sizeof_Cluster h \<le> 1048"
  shows "clusterCount t' = 0 \<or> 1000 \<le> clusterCount t'"
proof -
  from resize_Inr [OF assms(1)] obtain contents where
    t': "t' = clear h (t\<lparr>table := map contents
                    [0..<unat (mbSize * 1024 * 1024) div sizeof_Cluster h]\<rparr>) n"
    by blast
  have cc: "clusterCount t' = unat (mbSize * 1024 * 1024) div sizeof_Cluster h"
    unfolding t' clusterCount_clear by (simp add: clusterCount_def)
  from unat_megabytes [of mbSize] show ?thesis
  proof
    assume "unat (mbSize * 1024 * 1024) = 0"
    then show ?thesis using cc by simp
  next
    assume big: "1048576 \<le> unat (mbSize * 1024 * 1024)"
    have "1000 * sizeof_Cluster h \<le> 1000 * 1048" using assms(3) by simp
    also have "\<dots> \<le> unat (mbSize * 1024 * 1024)" using big by simp
    finally have "1000 \<le> unat (mbSize * 1024 * 1024) div sizeof_Cluster h"
      using assms(2) by (simp add: less_eq_div_iff_mult_less_eq)
    then show ?thesis using cc by simp
  qed
qed

text \<open>
  Claim C9, as stated, fails: \<open>probe\<close>, \<open>hashfull\<close> and \<open>save\<close> do not return
  normally for every input. On the table that has no cluster, the table before its first
  \<open>resize\<close>, \<open>probe\<close> and \<open>hashfull\<close> read \<open>table[0]\<close> through the null pointer.
  With assertions kept, a \<open>save\<close> of bound EXACT and depth \<open>-1000\<close> overwrites and
  fails \<open>assert(d > DEPTH_ENTRY_OFFSET)\<close>.
\<close>

theorem no_table_counterexample:
  "clusterCount tt_empty = 0 \<and> probe sf_header tt_empty 0x1234 = None
   \<and> hashfull sf_header tt_empty = None
   \<and> save_checked sf_header entry_d10 0x1234 200 False BOUND_EXACT (- 1000) 0 60 8 = None"
  by (simp add: probe_def hashfull_def hashfull_clusters_short tt_empty_def
      clusterCount_def first_entry_def mul_hi64_def save_checked_def Let_def sf_header_def)

text \<open>
  Claim C9, amended. \<open>resize\<close> fails exactly when the allocator does; it then writes
  the diagnostic and exits with \<open>EXIT_FAILURE\<close>, which is not zero; its result depends
  on the allocator only through the one request it makes, so nothing is retried and no
  other size is asked for. A table that \<open>resize\<close> returns has no cluster or at least
  1000 (for a cluster of at most 1048 bytes). \<open>probe\<close> returns for every fingerprint
  on a table that has at least one cluster (each with at least one entry), \<open>hashfull\<close>
  returns on a table that has at least 1000 clusters, and every write of \<open>clear\<close> is
  inside the table. \<open>save\<close> with its assertions kept aborts if and only if it
  overwrites the entry with a depth outside the asserted range, and otherwise returns
  what \<open>save\<close> without assertions returns; that one is a total function without an
  error result, as \<open>clear\<close> is.
\<close>

theorem failure_modes:
  "(resize h alloc t mbSize n = Inl x \<longleftrightarrow>
      alloc (unat (mbSize * 1024 * 1024) div sizeof_Cluster h * sizeof_Cluster h) = None
      \<and> x = Exit [Str ''Failed to allocate '', Num (unat mbSize),
                  Str ''MB for transposition table.'', Endl] EXIT_FAILURE)
   \<and> EXIT_FAILURE \<noteq> 0
   \<and> (alloc' (unat (mbSize * 1024 * 1024) div sizeof_Cluster h * sizeof_Cluster h)
        = alloc (unat (mbSize * 1024 * 1024) div sizeof_Cluster h * sizeof_Cluster h)
      \<longrightarrow> resize h alloc' t mbSize n = resize h alloc t mbSize n)
   \<and> (resize h alloc t mbSize n = Inr t' \<and> 0 < sizeof_Cluster h \<and> sizeof_Cluster h \<le> 1048
      \<longrightarrow> clusterCount t' = 0 \<or> 1000 \<le> clusterCount t')
   \<and> (0 < clusterCount t \<and> list_all (\<lambda>c. c \<noteq> []) (table t)
      \<longrightarrow> (\<exists>r. probe h t key = Some r))
   \<and> (1000 \<le> clusterCount t \<and> 0 < ClusterSize h \<longrightarrow> (\<exists>r. hashfull h t = Some r))
   \<and> (\<forall>i<n. stride_start (clusterCount t) n i + stride_len (clusterCount t) n i
              \<le> clusterCount t)
   \<and> (save_checked h e k v pv b d m ev g = None
        \<longleftrightarrow> overwrites h e k pv b d g \<and> \<not> save_asserts h d)
   \<and> (save_asserts h d \<or> \<not> overwrites h e k pv b d g
      \<longrightarrow> save_checked h e k v pv b d m ev g = Some (save h e k v pv b d m ev g))"
proof (intro conjI)
  show "resize h alloc t mbSize n = Inl x \<longleftrightarrow>
      alloc (unat (mbSize * 1024 * 1024) div sizeof_Cluster h * sizeof_Cluster h) = None
      \<and> x = Exit [Str ''Failed to allocate '', Num (unat mbSize),
                  Str ''MB for transposition table.'', Endl] EXIT_FAILURE"
    by (auto simp: resize_def Let_def split: option.splits)
  show "EXIT_FAILURE \<noteq> 0" by (simp add: EXIT_FAILURE_def)
  show "alloc' (unat (mbSize * 1024 * 1024) div sizeof_Cluster h * sizeof_Cluster h)
        = alloc (unat (mbSize * 1024 * 1024) div sizeof_Cluster h * sizeof_Cluster h)
      \<longrightarrow> resize h alloc' t mbSize n = resize h alloc t mbSize n"
    by (simp add: resize_def Let_def)
  show "resize h alloc t mbSize n = Inr t' \<and> 0 < sizeof_Cluster h \<and> sizeof_Cluster h \<le> 1048
      \<longrightarrow> clusterCount t' = 0 \<or> 1000 \<le> clusterCount t'"
    using resize_cluster_range [of h alloc t mbSize n t'] by blast
  show "0 < clusterCount t \<and> list_all (\<lambda>c. c \<noteq> []) (table t)
      \<longrightarrow> (\<exists>r. probe h t key = Some r)"
  proof
    assume a: "0 < clusterCount t \<and> list_all (\<lambda>c. c \<noteq> []) (table t)"
    then have "first_entry t key < length (table t)"
      using first_entry_less [of t key] by (simp add: clusterCount_def)
    with a have "table t ! first_entry t key \<noteq> []" by (simp add: list_all_length)
    from probe_returns [OF conjunct1 [OF a] this, of h]
    show "\<exists>r. probe h t key = Some r" by blast
  qed
  show "1000 \<le> clusterCount t \<and> 0 < ClusterSize h \<longrightarrow> (\<exists>r. hashfull h t = Some r)"
  proof
    assume a: "1000 \<le> clusterCount t \<and> 0 < ClusterSize h"
    then have "1000 \<le> length (table t)" by (simp add: clusterCount_def)
    from hashfull_clusters_long [OF this, of 0 h 0] a
    show "\<exists>r. hashfull h t = Some r" by (simp add: hashfull_def)
  qed
  show "\<forall>i<n. stride_start (clusterCount t) n i + stride_len (clusterCount t) n i
              \<le> clusterCount t"
    by (simp add: stride_within)
  show "save_checked h e k v pv b d m ev g = None
        \<longleftrightarrow> overwrites h e k pv b d g \<and> \<not> save_asserts h d"
    by (simp add: save_checked_eq)
  show "save_asserts h d \<or> \<not> overwrites h e k pv b d g
      \<longrightarrow> save_checked h e k v pv b d m ev g = Some (save h e k v pv b d m ev g)"
    by (auto simp: save_checked_eq)
qed

theorem failure_modes_witness:
  "resize sf_header (\<lambda>bytes. None) tt_empty 16 4
     = Inl (Exit [Str ''Failed to allocate '', Num 16,
                  Str ''MB for transposition table.'', Endl] 1)
   \<and> 0 < sizeof_Cluster sf_header \<and> sizeof_Cluster sf_header \<le> 1048
   \<and> 1000 \<le> clusterCount (clear sf_header
              (tt_empty\<lparr>table := map (\<lambda>i. cluster_demo) [0..<98304]\<rparr>) 1)
   \<and> 0 < clusterCount tt_demo \<and> list_all (\<lambda>c. c \<noteq> []) (table tt_demo)
   \<and> (\<exists>r. probe sf_header tt_demo 0x1234 = Some r)
   \<and> 1000 \<le> clusterCount tt_1000 \<and> 0 < ClusterSize sf_header
   \<and> (\<exists>r. hashfull sf_header tt_1000 = Some r)
   \<and> save_asserts sf_header 9
   \<and> save_checked sf_header entry_d10 0x1234 200 False BOUND_LOWER 9 0 60 8
       = Some (save sf_header entry_d10 0x1234 200 False BOUND_LOWER 9 0 60 8)
   \<and> \<not> overwrites sf_header entry_d10 0x1234 False BOUND_LOWER (- 1000) 8
   \<and> save_checked sf_header entry_d10 0x1234 200 False BOUND_LOWER (- 1000) 0 60 8
       = Some (save sf_header entry_d10 0x1234 200 False BOUND_LOWER (- 1000) 0 60 8)"
proof -
  let ?t3 = "clear sf_header (tt_empty\<lparr>table := map (\<lambda>i. cluster_demo) [0..<98304]\<rparr>) 1"
  have a: "0 < clusterCount tt_demo \<and> list_all (\<lambda>c. c \<noteq> []) (table tt_demo)"
    by (simp add: clusterCount_def tt_demo_def cluster_demo_def cluster_fresh_def)
  have b: "1000 \<le> clusterCount tt_1000 \<and> 0 < ClusterSize sf_header"
    by (simp add: clusterCount_def tt_1000_def sf_header_def)
  have r: "resize sf_header alloc_demo tt_empty 3 1 = Inr ?t3"
    by (simp add: resize_def alloc_demo_def sf_header_def)
  have s: "0 < sizeof_Cluster sf_header \<and> sizeof_Cluster sf_header \<le> 1048"
    by (simp add: sf_header_def)
  have c: "clusterCount ?t3 \<noteq> 0"
    by (simp add: clusterCount_clear) (simp add: clusterCount_def)
  have d: "save_asserts sf_header 9"
    "\<not> overwrites sf_header entry_d10 0x1234 False BOUND_LOWER (- 1000) 8"
    by (simp_all add: save_asserts_def overwrites_def sf_header_def entry_d10_def depth_def
        relative_age_def)
  have n: "(\<lambda>bytes. None :: (nat \<Rightarrow> Cluster) option)
             (unat (16 * 1024 * 1024 :: 64 word) div sizeof_Cluster sf_header
                * sizeof_Cluster sf_header) = None"
    by simp
  note fm1 = failure_modes [where h = sf_header and alloc = "\<lambda>bytes. None" and t = tt_empty
        and mbSize = 16 and n = 4
        and x = "Exit [Str ''Failed to allocate '', Num (unat (16 :: 64 word)),
                       Str ''MB for transposition table.'', Endl] EXIT_FAILURE"]
  have g1: "resize sf_header (\<lambda>bytes. None) tt_empty 16 4
     = Inl (Exit [Str ''Failed to allocate '', Num 16,
                  Str ''MB for transposition table.'', Endl] 1)"
    using fm1 [THEN conjunct1] n by (simp add: EXIT_FAILURE_def)
  note fm2 = failure_modes [where h = sf_header and alloc = alloc_demo and t = tt_empty
        and mbSize = 3 and n = 1 and t' = ?t3]
  have g2: "1000 \<le> clusterCount ?t3"
    using fm2 [THEN conjunct2, THEN conjunct2, THEN conjunct2, THEN conjunct1] r s c by blast
  note fm3 = failure_modes [where h = sf_header and t = tt_demo and key = "0x1234"]
  have g3: "\<exists>r. probe sf_header tt_demo 0x1234 = Some r"
    using fm3 a by blast
  note fm4 = failure_modes [where h = sf_header and t = tt_1000]
  have g4: "\<exists>r. hashfull sf_header tt_1000 = Some r"
    using fm4 b by blast
  note fm5 = failure_modes [where h = sf_header and e = entry_d10 and k = "0x1234"
        and v = 200 and pv = False and b = BOUND_LOWER and d = 9 and m = 0 and ev = 60
        and g = 8]
  have g5: "save_checked sf_header entry_d10 0x1234 200 False BOUND_LOWER 9 0 60 8
       = Some (save sf_header entry_d10 0x1234 200 False BOUND_LOWER 9 0 60 8)"
    using fm5 d(1) by blast
  note fm6 = failure_modes [where h = sf_header and e = entry_d10 and k = "0x1234"
        and v = 200 and pv = False and b = BOUND_LOWER and d = "- 1000" and m = 0 and ev = 60
        and g = 8]
  have g6: "save_checked sf_header entry_d10 0x1234 200 False BOUND_LOWER (- 1000) 0 60 8
       = Some (save sf_header entry_d10 0x1234 200 False BOUND_LOWER (- 1000) 0 60 8)"
    using fm6 d(2) by blast
  from g1 s g2 a g3 b g4 d(1) g5 d(2) g6 show ?thesis by (intro conjI) blast+
qed

section \<open>Properties of the evaluator\<close>

lemma std_clamp_range: "lo \<le> hi \<Longrightarrow> lo \<le> std_clamp v lo hi \<and> std_clamp v lo hi \<le> hi"
  by (auto simp: std_clamp_def)

lemma int32_id: "- (2 ^ 31) \<le> x \<Longrightarrow> x < 2 ^ 31 \<Longrightarrow> int32 x = x"
  by (simp add: int32_def)

lemma int32_range: "- (2 ^ 31) \<le> int32 x \<and> int32 x < 2 ^ 31"
proof -
  have "0 \<le> (x + 2 ^ 31) mod 2 ^ 32" "(x + 2 ^ 31) mod 2 ^ 32 < (2 ^ 32 :: int)" by simp_all
  then show ?thesis by (simp add: int32_def)
qed

text \<open>
  Claim C10. When the clamp bounds \<open>VALUE_TB_LOSS_IN_MAX_PLY + 1\<close> and
  \<open>VALUE_TB_WIN_IN_MAX_PLY - 1\<close> are in this order and at most \<open>2^24\<close> in magnitude,
  then for every position not in check, every optimism, every pair of networks, every
  setting of \<open>RandomEval\<close> and \<open>WaitMs\<close> and every random draw, the value that
  \<open>evaluate\<close> returns lies between the two bounds, also when the 32-bit arithmetic
  before the final clamp has wrapped.
\<close>

theorem evaluate_range:
  assumes "- (2 ^ 24) \<le> VALUE_TB_LOSS_IN_MAX_PLY K + 1"
    and "VALUE_TB_LOSS_IN_MAX_PLY K + 1 \<le> VALUE_TB_WIN_IN_MAX_PLY K - 1"
    and "VALUE_TB_WIN_IN_MAX_PLY K - 1 \<le> 2 ^ 24"
    and "evaluate_asserts pos"
  shows "VALUE_TB_LOSS_IN_MAX_PLY K + 1 \<le> evaluate K RandomEval WaitMs sample networks pos optimism
       \<and> evaluate K RandomEval WaitMs sample networks pos optimism \<le> VALUE_TB_WIN_IN_MAX_PLY K - 1"
proof -
  have l: "int32 (VALUE_TB_LOSS_IN_MAX_PLY K) = VALUE_TB_LOSS_IN_MAX_PLY K"
    using assms(1-3) by (intro int32_id) simp_all
  have h: "int32 (VALUE_TB_WIN_IN_MAX_PLY K) = VALUE_TB_WIN_IN_MAX_PLY K"
    using assms(1-3) by (intro int32_id) simp_all
  have lo: "add32 (int32 (VALUE_TB_LOSS_IN_MAX_PLY K)) 1 = VALUE_TB_LOSS_IN_MAX_PLY K + 1"
    unfolding l add32_def using assms(1-3) by (intro int32_id) simp_all
  have hi: "sub32 (int32 (VALUE_TB_WIN_IN_MAX_PLY K)) 1 = VALUE_TB_WIN_IN_MAX_PLY K - 1"
    unfolding h sub32_def using assms(1-3) by (intro int32_id) simp_all
  show ?thesis
    unfolding evaluate_def Let_def split_def lo hi using assms(2) by (rule std_clamp_range)
qed

text \<open>
  Evaluation on the concrete position: the values of the position, of the networks and
  of the constants, and the net selection, are put in first.
\<close>

lemmas int32_ops = add32_def sub32_def mul32_def div32_def abs32_def int32_def

lemma pos_demo_sel:
  "side_to_move pos_demo = WHITE" "count_PAWN_all pos_demo = 15"
  "non_pawn_material_all pos_demo = 15500" "rule50_count pos_demo = 3"
  "checkers pos_demo = 0"
  by (simp_all add: pos_demo_def)

lemma net_demo_sel:
  "small_evaluate net_demo p a b = (250, 40)" "big_evaluate net_demo p a b = (300, 60)"
  by (simp_all add: net_demo_def)

lemma sf_types_sel:
  "PawnValue sf_types = 208" "VALUE_TB_WIN_IN_MAX_PLY sf_types = 31507"
  "VALUE_TB_LOSS_IN_MAX_PLY sf_types = - 31507"
  by (simp_all add: sf_types_def)

lemma simple_eval_pos_demo: "simple_eval sf_types pos_demo WHITE = 708"
  by (simp add: simple_eval_def sf_types_def pos_demo_def flip_color_def int32_ops)

lemma pos_demo_big_net: "(1136 < abs32 708) = False"
  by (simp add: int32_ops)

lemmas evaluate_pos_demo_inputs = pos_demo_sel net_demo_sel sf_types_sel
  simple_eval_pos_demo SmallNetThreshold_def PsqtOnlyThreshold_def pos_demo_big_net
  if_False prod.case

theorem evaluate_range_witness:
  "- (2 ^ 24) \<le> VALUE_TB_LOSS_IN_MAX_PLY sf_types + 1
   \<and> VALUE_TB_LOSS_IN_MAX_PLY sf_types + 1 \<le> VALUE_TB_WIN_IN_MAX_PLY sf_types - 1
   \<and> VALUE_TB_WIN_IN_MAX_PLY sf_types - 1 \<le> 2 ^ 24
   \<and> evaluate_asserts pos_demo
   \<and> evaluate sf_types 0 0 0 net_demo pos_demo 100 = 388
   \<and> evaluate sf_types 50 0 (- 1234.5) net_demo pos_demo 100 = - 423
   \<and> evaluate sf_types 200 0 1000000 net_demo pos_demo 100 = 31506
   \<and> evaluate sf_types 0 0 0 net_demo pos_demo 4000000 = - 31506"
proof -
  have a: "- (2 ^ 24) \<le> VALUE_TB_LOSS_IN_MAX_PLY sf_types + 1"
    "VALUE_TB_LOSS_IN_MAX_PLY sf_types + 1 \<le> VALUE_TB_WIN_IN_MAX_PLY sf_types - 1"
    "VALUE_TB_WIN_IN_MAX_PLY sf_types - 1 \<le> 2 ^ 24"
    by (simp_all add: sf_types_def)
  have b: "evaluate_asserts pos_demo" by (simp add: evaluate_asserts_def pos_demo_def)
  have e1: "evaluate sf_types 0 0 0 net_demo pos_demo 100 = 388"
    unfolding evaluate_def Let_def
    by (simp only: evaluate_pos_demo_inputs) (simp add: int32_ops std_clamp_def float_to_int_def)
  have e2: "evaluate sf_types 50 0 (- 1234.5) net_demo pos_demo 100 = - 423"
    unfolding evaluate_def Let_def
    by (simp only: evaluate_pos_demo_inputs) (simp add: int32_ops std_clamp_def float_to_int_def)
  have e3: "evaluate sf_types 200 0 1000000 net_demo pos_demo 100 = 31506"
    unfolding evaluate_def Let_def
    by (simp only: evaluate_pos_demo_inputs) (simp add: int32_ops std_clamp_def float_to_int_def)
  have e4: "evaluate sf_types 0 0 0 net_demo pos_demo 4000000 = - 31506"
    unfolding evaluate_def Let_def
    by (simp only: evaluate_pos_demo_inputs) (simp add: int32_ops std_clamp_def float_to_int_def)
  from a b e1 e2 e3 e4
    evaluate_range [OF a b, of 0 0 0 net_demo 4000000]
  show ?thesis by simp
qed

end
